theory Spec2Isabelle
  imports Complex_Main "HOL-Library.Char_ord" "HOL-Library.List_Lexorder"
begin

section \<open>Parsed JSON and the Python operations the program applies to it\<close>

text \<open>
  Both source files work on the value returned by \<^verbatim>\<open>resp.json()\<close>: a tree of Python
  \<^verbatim>\<open>None\<close>, \<^verbatim>\<open>bool\<close>, numbers, \<^verbatim>\<open>str\<close>, \<^verbatim>\<open>list\<close> and \<^verbatim>\<open>dict\<close> with string keys.
  A dict is an association list in insertion order (its keys are distinct; lookup is
  \<open>map_of\<close>). Numbers are rationals: the exact value of the decimal literal, so the
  rounding of binary floating point and the non-standard literals \<^verbatim>\<open>NaN\<close> and
  \<^verbatim>\<open>Infinity\<close> are outside the model. A character is one \<open>char\<close>.
\<close>

datatype json =
    JNull
  | JBool bool
  | JNum rat
  | JStr string
  | JArr "json list"
  | JObj "(string \<times> json) list"

text \<open>The exceptions the modelled code can raise.\<close>

datatype error =
    AttributeError
  | KeyError
  | IndexError
  | TypeError
  | ValueError
  | RuntimeError
  | RequestException
  | HTTPError nat
  | JSONDecodeError

text \<open>Sequencing of two steps, the first of which may raise.\<close>

definition ebind :: "error + 'a \<Rightarrow> ('a \<Rightarrow> error + 'b) \<Rightarrow> error + 'b" where
  "ebind m f = (case m of Inl e \<Rightarrow> Inl e | Inr v \<Rightarrow> f v)"

text \<open>Truth value of an object, as \<^verbatim>\<open>if x\<close> and \<^verbatim>\<open>not x\<close> test it.\<close>

fun truthy :: "json \<Rightarrow> bool" where
  "truthy JNull = False"
| "truthy (JBool b) = b"
| "truthy (JNum n) = (n \<noteq> 0)"
| "truthy (JStr s) = (s \<noteq> [])"
| "truthy (JArr xs) = (xs \<noteq> [])"
| "truthy (JObj kvs) = (kvs \<noteq> [])"

text \<open>\<^verbatim>\<open>x.get(k, default)\<close>: only a dict has the method.\<close>

fun py_get :: "json \<Rightarrow> string \<Rightarrow> json \<Rightarrow> error + json" where
  "py_get (JObj kvs) k dflt = Inr (case map_of kvs k of None \<Rightarrow> dflt | Some v \<Rightarrow> v)"
| "py_get _ k dflt = Inl AttributeError"

text \<open>\<^verbatim>\<open>x[k]\<close> with a string key \<open>k\<close>: \<^verbatim>\<open>KeyError\<close> on a dict without the key,
  \<^verbatim>\<open>TypeError\<close> on everything that is not a dict.\<close>

fun py_item :: "json \<Rightarrow> string \<Rightarrow> error + json" where
  "py_item (JObj kvs) k = (case map_of kvs k of None \<Rightarrow> Inl KeyError | Some v \<Rightarrow> Inr v)"
| "py_item _ k = Inl TypeError"

text \<open>\<^verbatim>\<open>x[0]\<close>: the first element of a list, the first character of a string,
  \<^verbatim>\<open>KeyError\<close> on a dict (whose keys are strings).\<close>

fun py_item0 :: "json \<Rightarrow> error + json" where
  "py_item0 (JArr xs) = (case xs of [] \<Rightarrow> Inl IndexError | x # _ \<Rightarrow> Inr x)"
| "py_item0 (JStr s) = (case s of [] \<Rightarrow> Inl IndexError | c # _ \<Rightarrow> Inr (JStr [c]))"
| "py_item0 (JObj kvs) = Inl KeyError"
| "py_item0 _ = Inl TypeError"

text \<open>\<^verbatim>\<open>for item in x\<close>: the elements of a list, the characters of a string, the keys
  of a dict.\<close>

fun py_iter :: "json \<Rightarrow> error + json list" where
  "py_iter (JArr xs) = Inr xs"
| "py_iter (JStr s) = Inr (map (\<lambda>c. JStr [c]) s)"
| "py_iter (JObj kvs) = Inr (map (\<lambda>kv. JStr (fst kv)) kvs)"
| "py_iter _ = Inl TypeError"

text \<open>The numeric value of a number; \<^verbatim>\<open>bool\<close> is a subclass of \<^verbatim>\<open>int\<close>.\<close>

fun num_of :: "json \<Rightarrow> rat option" where
  "num_of (JNum n) = Some n"
| "num_of (JBool b) = Some (if b then 1 else 0)"
| "num_of _ = None"

text \<open>\<^verbatim>\<open>x == y\<close>, which never raises on these values.\<close>

fun py_eq :: "json \<Rightarrow> json \<Rightarrow> bool"
  and py_eq_list :: "json list \<Rightarrow> json list \<Rightarrow> bool"
  and py_eq_dict :: "(string \<times> json) list \<Rightarrow> (string \<times> json) list \<Rightarrow> bool" where
  "py_eq JNull JNull = True"
| "py_eq (JBool a) (JBool b) = (a = b)"
| "py_eq (JBool a) (JNum n) = ((if a then 1 else 0) = n)"
| "py_eq (JNum m) (JBool b) = (m = (if b then 1 else 0))"
| "py_eq (JNum m) (JNum n) = (m = n)"
| "py_eq (JStr s) (JStr t) = (s = t)"
| "py_eq (JArr xs) (JArr ys) = py_eq_list xs ys"
| "py_eq (JObj xs) (JObj ys) = (length xs = length ys \<and> py_eq_dict xs ys)"
| "py_eq _ _ = False"
| "py_eq_list [] [] = True"
| "py_eq_list (x # xs) (y # ys) = (py_eq x y \<and> py_eq_list xs ys)"
| "py_eq_list _ _ = False"
| "py_eq_dict [] ys = True"
| "py_eq_dict ((k, v) # xs) ys =
     (case map_of ys k of None \<Rightarrow> False | Some w \<Rightarrow> py_eq v w \<and> py_eq_dict xs ys)"

text \<open>\<^verbatim>\<open>x < y\<close>: numbers by value, strings and lists lexicographically,
  \<^verbatim>\<open>TypeError\<close> for every other pair. \<^verbatim>\<open>x > y\<close> is \<open>py_lt y x\<close>.\<close>

fun py_lt :: "json \<Rightarrow> json \<Rightarrow> error + bool"
  and py_lt_list :: "json list \<Rightarrow> json list \<Rightarrow> error + bool" where
  "py_lt (JBool a) (JBool b) = Inr (\<not> a \<and> b)"
| "py_lt (JBool a) (JNum n) = Inr ((if a then 1 else 0) < n)"
| "py_lt (JNum m) (JBool b) = Inr (m < (if b then 1 else 0))"
| "py_lt (JNum m) (JNum n) = Inr (m < n)"
| "py_lt (JStr s) (JStr t) = Inr (s < t)"
| "py_lt (JArr xs) (JArr ys) = py_lt_list xs ys"
| "py_lt _ _ = Inl TypeError"
| "py_lt_list [] [] = Inr False"
| "py_lt_list [] (y # ys) = Inr True"
| "py_lt_list (x # xs) [] = Inr False"
| "py_lt_list (x # xs) (y # ys) = (if py_eq x y then py_lt_list xs ys else py_lt x y)"

text \<open>\<^verbatim>\<open>x <= y\<close>, by the same rules.\<close>

fun py_le :: "json \<Rightarrow> json \<Rightarrow> error + bool"
  and py_le_list :: "json list \<Rightarrow> json list \<Rightarrow> error + bool" where
  "py_le (JBool a) (JBool b) = Inr (a \<longrightarrow> b)"
| "py_le (JBool a) (JNum n) = Inr ((if a then 1 else 0) \<le> n)"
| "py_le (JNum m) (JBool b) = Inr (m \<le> (if b then 1 else 0))"
| "py_le (JNum m) (JNum n) = Inr (m \<le> n)"
| "py_le (JStr s) (JStr t) = Inr (s \<le> t)"
| "py_le (JArr xs) (JArr ys) = py_le_list xs ys"
| "py_le _ _ = Inl TypeError"
| "py_le_list [] ys = Inr True"
| "py_le_list (x # xs) [] = Inr False"
| "py_le_list (x # xs) (y # ys) = (if py_eq x y then py_le_list xs ys else py_le x y)"

text \<open>\<^verbatim>\<open>min(xs)\<close> and \<^verbatim>\<open>max(xs)\<close>: one pass that keeps the first extremal element and
  replaces it only by a strictly smaller (greater) one; \<^verbatim>\<open>ValueError\<close> on an empty list.\<close>

fun min_loop :: "json \<Rightarrow> json list \<Rightarrow> error + json" where
  "min_loop best [] = Inr best"
| "min_loop best (x # xs) =
     (case py_lt x best of Inl e \<Rightarrow> Inl e | Inr b \<Rightarrow> min_loop (if b then x else best) xs)"

fun max_loop :: "json \<Rightarrow> json list \<Rightarrow> error + json" where
  "max_loop best [] = Inr best"
| "max_loop best (x # xs) =
     (case py_lt best x of Inl e \<Rightarrow> Inl e | Inr b \<Rightarrow> max_loop (if b then x else best) xs)"

definition py_min :: "json list \<Rightarrow> error + json" where
  "py_min xs = (case xs of [] \<Rightarrow> Inl ValueError | x # rest \<Rightarrow> min_loop x rest)"

definition py_max :: "json list \<Rightarrow> error + json" where
  "py_max xs = (case xs of [] \<Rightarrow> Inl ValueError | x # rest \<Rightarrow> max_loop x rest)"

text \<open>\<^verbatim>\<open>sum(xs)\<close>: starts at 0 and adds from the left; adding anything but a number
  to a number raises \<^verbatim>\<open>TypeError\<close>. The additions here are exact. Python adds binary
  floats, rounding at every step (and with a compensated algorithm from version 3.12 on),
  and raises \<^verbatim>\<open>OverflowError\<close> when an integer too large for a float meets a float: the
  value of a sum of floats is therefore not represented, and no statement below is about
  it.\<close>

fun sum_loop :: "rat \<Rightarrow> json list \<Rightarrow> error + rat" where
  "sum_loop acc [] = Inr acc"
| "sum_loop acc (x # xs) =
     (case num_of x of None \<Rightarrow> Inl TypeError | Some n \<Rightarrow> sum_loop (acc + n) xs)"

definition py_sum :: "json list \<Rightarrow> error + rat" where
  "py_sum xs = sum_loop 0 xs"

text \<open>\<^verbatim>\<open>Counter(xs)\<close>: a dict from element to count, in order of first occurrence;
  lists and dicts are unhashable. \<^verbatim>\<open>most_common(1)\<close> is the maximum of the items by
  count, the first one among equals.\<close>

fun hashable :: "json \<Rightarrow> bool" where
  "hashable (JArr xs) = False"
| "hashable (JObj kvs) = False"
| "hashable _ = True"

fun count_incr :: "(json \<times> nat) list \<Rightarrow> json \<Rightarrow> (json \<times> nat) list" where
  "count_incr [] v = [(v, 1)]"
| "count_incr ((k, c) # kcs) v =
     (if py_eq k v then (k, c + 1) # kcs else (k, c) # count_incr kcs v)"

fun count_elements :: "(json \<times> nat) list \<Rightarrow> json list \<Rightarrow> error + (json \<times> nat) list" where
  "count_elements cnt [] = Inr cnt"
| "count_elements cnt (v # vs) =
     (if hashable v then count_elements (count_incr cnt v) vs else Inl TypeError)"

definition Counter :: "json list \<Rightarrow> error + (json \<times> nat) list" where
  "Counter xs = count_elements [] xs"

fun max_count :: "json \<times> nat \<Rightarrow> (json \<times> nat) list \<Rightarrow> json \<times> nat" where
  "max_count best [] = best"
| "max_count best (kc # kcs) = max_count (if snd best < snd kc then kc else best) kcs"

definition most_common1 :: "(json \<times> nat) list \<Rightarrow> (json \<times> nat) list" where
  "most_common1 cnt = (case cnt of [] \<Rightarrow> [] | kc # kcs \<Rightarrow> [max_count kc kcs])"

text \<open>\<^verbatim>\<open>Counter(xs).most_common(1)[0][0]\<close>.\<close>

definition most_common_key :: "json list \<Rightarrow> error + json" where
  "most_common_key xs =
     ebind (Counter xs) (\<lambda>cnt.
       case most_common1 cnt of [] \<Rightarrow> Inl IndexError | kc # _ \<Rightarrow> Inr (fst kc))"

text \<open>\<^verbatim>\<open>xs[:n]\<close>: a negative \<open>n\<close> counts from the end.\<close>

definition slice_to :: "'a list \<Rightarrow> int \<Rightarrow> 'a list" where
  "slice_to xs n = (if 0 \<le> n then take (nat n) xs else take (length xs - nat (- n)) xs)"

text \<open>A list comprehension \<^verbatim>\<open>[e(x) for x in xs if c(x)]\<close>: the function gives
  \<open>Inr None\<close> where the condition fails, and the first exception ends the evaluation.\<close>

fun list_comp :: "('a \<Rightarrow> error + 'b option) \<Rightarrow> 'a list \<Rightarrow> error + 'b list" where
  "list_comp f [] = Inr []"
| "list_comp f (x # xs) =
     (case f x of
        Inl e \<Rightarrow> Inl e
      | Inr None \<Rightarrow> list_comp f xs
      | Inr (Some v) \<Rightarrow> (case list_comp f xs of Inl e \<Rightarrow> Inl e | Inr vs \<Rightarrow> Inr (v # vs)))"

section \<open>The HTTP client\<close>

text \<open>
  \<^verbatim>\<open>requests.get\<close> is an external capability: a function from the request (URL and
  query parameters) to a response or a \<^verbatim>\<open>RequestException\<close>. A response carries its
  status code and the parse of its body (\<open>None\<close> when the body is not JSON). Every
  function that sends a request appends it to the log of requests sent so far.
\<close>

record response =
  status_code :: nat
  body :: "json option"

type_synonym request = "string \<times> (string \<times> string option) list"

type_synonym http = "request \<Rightarrow> error + response"

definition raise_for_status :: "response \<Rightarrow> error + unit" where
  "raise_for_status resp =
     (if 400 \<le> status_code resp \<and> status_code resp < 600
      then Inl (HTTPError (status_code resp)) else Inr ())"

definition resp_json :: "response \<Rightarrow> error + json" where
  "resp_json resp = (case body resp of None \<Rightarrow> Inl JSONDecodeError | Some data \<Rightarrow> Inr data)"

text \<open>\<^verbatim>\<open>not API_KEY\<close> for the value of \<^verbatim>\<open>os.getenv\<close>: unset or empty.\<close>

definition key_missing :: "string option \<Rightarrow> bool" where
  "key_missing k = (case k of None \<Rightarrow> True | Some s \<Rightarrow> s = [])"

section \<open>app.py: current conditions\<close>

record current =
  city :: json
  country :: json
  temp :: json
  feels_like :: json
  humidity :: json
  pressure :: json
  description :: json
  icon :: json
  wind_speed :: json
  clouds :: json
  rain_1h :: json
  sunrise :: json
  sunset :: json
  dt :: json

text \<open>Lines 34 to 53 of \<^verbatim>\<open>get_weather\<close>: the projection of the parsed body. The
  entries of the returned dict are evaluated in the order they are written.\<close>

definition get_weather_data :: "json \<Rightarrow> error + current" where
  "get_weather_data data =
     ebind (py_get data ''sys'' (JObj [])) (\<lambda>sys.
     ebind (py_get data ''main'' (JObj [])) (\<lambda>main.
     ebind (ebind (py_get data ''weather'' (JArr [JObj []])) py_item0) (\<lambda>weather0.
     ebind (py_get data ''name'' JNull) (\<lambda>v_city.
     ebind (py_get sys ''country'' JNull) (\<lambda>v_country.
     ebind (py_get main ''temp'' JNull) (\<lambda>v_temp.
     ebind (py_get main ''feels_like'' JNull) (\<lambda>v_feels_like.
     ebind (py_get main ''humidity'' JNull) (\<lambda>v_humidity.
     ebind (py_get main ''pressure'' JNull) (\<lambda>v_pressure.
     ebind (py_get weather0 ''description'' JNull) (\<lambda>v_description.
     ebind (py_get weather0 ''icon'' JNull) (\<lambda>v_icon.
     ebind (ebind (py_get data ''wind'' (JObj [])) (\<lambda>w. py_get w ''speed'' JNull)) (\<lambda>v_wind_speed.
     ebind (ebind (py_get data ''clouds'' (JObj [])) (\<lambda>c. py_get c ''all'' JNull)) (\<lambda>v_clouds.
     ebind (ebind (py_get data ''rain'' JNull) (\<lambda>r.
              if truthy r
              then ebind (py_get data ''rain'' (JObj [])) (\<lambda>r. py_get r ''1h'' (JNum 0))
              else Inr (JNum 0))) (\<lambda>v_rain_1h.
     ebind (py_get sys ''sunrise'' JNull) (\<lambda>v_sunrise.
     ebind (py_get sys ''sunset'' JNull) (\<lambda>v_sunset.
     ebind (py_get data ''dt'' JNull) (\<lambda>v_dt.
       Inr \<lparr> city = v_city, country = v_country, temp = v_temp,
             feels_like = v_feels_like, humidity = v_humidity, pressure = v_pressure,
             description = v_description, icon = v_icon, wind_speed = v_wind_speed,
             clouds = v_clouds, rain_1h = v_rain_1h, sunrise = v_sunrise,
             sunset = v_sunset, dt = v_dt \<rparr>)))))))))))))))))"

text \<open>\<^verbatim>\<open>get_weather(city, units)\<close> of app.py, with the module's \<^verbatim>\<open>API_KEY\<close>, the HTTP
  client and the log of requests made explicit.\<close>

definition get_weather ::
  "http \<Rightarrow> string option \<Rightarrow> string \<Rightarrow> string \<Rightarrow> request list
     \<Rightarrow> (error + current) \<times> request list" where
  "get_weather requests_get API_KEY v_city units sent =
     (let url = ''https://api.openweathermap.org/data/2.5/weather'';
          params = [(''q'', Some v_city), (''appid'', API_KEY), (''units'', Some units)]
      in (ebind (requests_get (url, params)) (\<lambda>resp.
          ebind (raise_for_status resp) (\<lambda>_.
          ebind (resp_json resp) get_weather_data)),
          sent @ [(url, params)]))"

section \<open>fetch\_weather.py\<close>

record cli_weather =
  city :: json
  temp :: json
  feels_like :: json
  humidity :: json
  pressure :: json
  description :: json
  icon :: json
  wind_speed :: json

text \<open>Lines 17 to 26 of \<^verbatim>\<open>get_weather\<close> in fetch\_weather.py.\<close>

definition fetch_weather_data :: "json \<Rightarrow> error + cli_weather" where
  "fetch_weather_data data =
     ebind (py_get data ''name'' JNull) (\<lambda>v_city.
     ebind (ebind (py_item data ''main'') (\<lambda>m. py_item m ''temp'')) (\<lambda>v_temp.
     ebind (ebind (py_item data ''main'') (\<lambda>m. py_get m ''feels_like'' JNull)) (\<lambda>v_feels_like.
     ebind (ebind (py_item data ''main'') (\<lambda>m. py_get m ''humidity'' JNull)) (\<lambda>v_humidity.
     ebind (ebind (py_item data ''main'') (\<lambda>m. py_get m ''pressure'' JNull)) (\<lambda>v_pressure.
     ebind (ebind (py_item data ''weather'') (\<lambda>w.
              ebind (py_item0 w) (\<lambda>w0. py_item w0 ''description''))) (\<lambda>v_description.
     ebind (ebind (py_item data ''weather'') (\<lambda>w.
              ebind (py_item0 w) (\<lambda>w0. py_item w0 ''icon''))) (\<lambda>v_icon.
     ebind (ebind (py_get data ''wind'' (JObj [])) (\<lambda>w. py_get w ''speed'' JNull)) (\<lambda>v_wind_speed.
       Inr \<lparr> city = v_city, temp = v_temp, feels_like = v_feels_like,
             humidity = v_humidity, pressure = v_pressure, description = v_description,
             icon = v_icon, wind_speed = v_wind_speed \<rparr>))))))))"

text \<open>\<^verbatim>\<open>get_weather(city, units)\<close> of fetch\_weather.py: the credential is tested at the
  start of every call.\<close>

definition fetch_weather_get_weather ::
  "http \<Rightarrow> string option \<Rightarrow> string \<Rightarrow> string \<Rightarrow> request list
     \<Rightarrow> (error + cli_weather) \<times> request list" where
  "fetch_weather_get_weather requests_get API_KEY v_city units sent =
     (if key_missing API_KEY then (Inl RuntimeError, sent)
      else
        let url = ''http://api.openweathermap.org/data/2.5/weather'';
            params = [(''q'', Some v_city), (''appid'', API_KEY), (''units'', Some units)]
        in (ebind (requests_get (url, params)) (\<lambda>resp.
            ebind (raise_for_status resp) (\<lambda>_.
            ebind (resp_json resp) fetch_weather_data)),
            sent @ [(url, params)]))"

section \<open>app.py: the forecast\<close>

record daily_summary =
  date :: string
  temp_min :: json
  temp_max :: json
  rain_mm :: rat
  description :: json
  icon :: json

text \<open>
  \<^verbatim>\<open>datetime.fromtimestamp(ts).date().isoformat()\<close> depends on the time zone of the
  process, which is not part of the repository: the conversion of a numeric timestamp to
  an ISO date (or an exception) is the parameter \<open>fromtimestamp\<close>. A timestamp that is
  not a number raises \<^verbatim>\<open>TypeError\<close>.
\<close>

type_synonym clock = "rat \<Rightarrow> error + string"

text \<open>Lines 66 to 69: the date of one item, \<open>None\<close> where the loop continues.\<close>

definition item_date :: "clock \<Rightarrow> json \<Rightarrow> error + string option" where
  "item_date fromtimestamp item =
     ebind (py_get item ''dt'' JNull) (\<lambda>ts.
       if ts = JNull then Inr None
       else case num_of ts of
              None \<Rightarrow> Inl TypeError
            | Some t \<Rightarrow> ebind (fromtimestamp t) (\<lambda>d. Inr (Some d)))"

text \<open>\<^verbatim>\<open>daily[date].append(item)\<close> on the \<^verbatim>\<open>defaultdict(list)\<close>: a new key goes to the
  end.\<close>

fun dict_append :: "(string \<times> json list) list \<Rightarrow> string \<Rightarrow> json \<Rightarrow> (string \<times> json list) list" where
  "dict_append [] d item = [(d, [item])]"
| "dict_append ((k, xs) # rest) d item =
     (if k = d then (k, xs @ [item]) # rest else (k, xs) # dict_append rest d item)"

text \<open>The loop of lines 65 to 70.\<close>

fun group_by_date ::
  "clock \<Rightarrow> json list \<Rightarrow> (string \<times> json list) list \<Rightarrow> error + (string \<times> json list) list" where
  "group_by_date fromtimestamp [] daily = Inr daily"
| "group_by_date fromtimestamp (item # items) daily =
     (case item_date fromtimestamp item of
        Inl e \<Rightarrow> Inl e
      | Inr None \<Rightarrow> group_by_date fromtimestamp items daily
      | Inr (Some d) \<Rightarrow> group_by_date fromtimestamp items (dict_append daily d item))"

text \<open>\<^verbatim>\<open>daily[d]\<close>, the empty list for a key that is not there.\<close>

definition dict_items :: "(string \<times> json list) list \<Rightarrow> string \<Rightarrow> json list" where
  "dict_items daily d = (case map_of daily d of None \<Rightarrow> [] | Some xs \<Rightarrow> xs)"

text \<open>The element functions of the four comprehensions of lines 76 to 79.\<close>

definition temp_of :: "json \<Rightarrow> error + json option" where
  "temp_of x =
     ebind (py_get x ''main'' JNull) (\<lambda>c.
       if truthy c
       then ebind (py_item x ''main'') (\<lambda>m. ebind (py_item m ''temp'') (\<lambda>t. Inr (Some t)))
       else Inr None)"

definition rain_of :: "json \<Rightarrow> error + json option" where
  "rain_of x =
     ebind (py_get x ''rain'' (JObj [])) (\<lambda>r.
     ebind (py_get r ''3h'' (JNum 0)) (\<lambda>v. Inr (Some v)))"

definition weather_field :: "string \<Rightarrow> json \<Rightarrow> error + json option" where
  "weather_field k x =
     ebind (py_get x ''weather'' JNull) (\<lambda>c.
       if truthy c
       then ebind (py_item x ''weather'') (\<lambda>w.
            ebind (py_item0 w) (\<lambda>w0.
            ebind (py_item w0 k) (\<lambda>v. Inr (Some v))))
       else Inr None)"

text \<open>Lines 75 to 91: the body of the second loop, \<open>None\<close> where it continues.\<close>

definition day_summary :: "string \<Rightarrow> json list \<Rightarrow> error + daily_summary option" where
  "day_summary d items =
     ebind (list_comp temp_of items) (\<lambda>temps.
     ebind (list_comp rain_of items) (\<lambda>rains.
     ebind (list_comp (weather_field ''description'') items) (\<lambda>descs.
     ebind (list_comp (weather_field ''icon'') items) (\<lambda>icons.
       if temps = [] then Inr None
       else
         ebind (py_min temps) (\<lambda>v_min.
         ebind (py_max temps) (\<lambda>v_max.
         ebind (py_sum rains) (\<lambda>v_rain.
         ebind (if descs \<noteq> [] then most_common_key descs else Inr (JStr [])) (\<lambda>v_desc.
         ebind (if icons \<noteq> [] then most_common_key icons else Inr JNull) (\<lambda>v_icon.
           Inr (Some \<lparr> date = d, temp_min = v_min, temp_max = v_max, rain_mm = v_rain,
                       description = v_desc, icon = v_icon \<rparr>))))))))))"

text \<open>The loop of lines 74 to 91 over the selected dates.\<close>

fun summarise :: "string list \<Rightarrow> (string \<times> json list) list \<Rightarrow> error + daily_summary list" where
  "summarise [] daily = Inr []"
| "summarise (d # ds) daily =
     (case day_summary d (dict_items daily d) of
        Inl e \<Rightarrow> Inl e
      | Inr None \<Rightarrow> summarise ds daily
      | Inr (Some s) \<Rightarrow>
          (case summarise ds daily of Inl e \<Rightarrow> Inl e | Inr ss \<Rightarrow> Inr (s # ss)))"

text \<open>Lines 64 to 92 of \<^verbatim>\<open>get_forecast\<close>: the aggregation of the parsed body.\<close>

definition get_forecast_data :: "clock \<Rightarrow> json \<Rightarrow> int \<Rightarrow> error + daily_summary list" where
  "get_forecast_data fromtimestamp data days =
     ebind (py_get data ''list'' (JArr [])) (\<lambda>l.
     ebind (py_iter l) (\<lambda>items.
     ebind (group_by_date fromtimestamp items []) (\<lambda>daily.
       let days_sorted = sort (map fst daily)
       in summarise (slice_to days_sorted days) daily)))"

definition get_forecast ::
  "http \<Rightarrow> clock \<Rightarrow> string option \<Rightarrow> string \<Rightarrow> string \<Rightarrow> int \<Rightarrow> request list
     \<Rightarrow> (error + daily_summary list) \<times> request list" where
  "get_forecast requests_get fromtimestamp API_KEY v_city units days sent =
     (let url = ''https://api.openweathermap.org/data/2.5/forecast'';
          params = [(''q'', Some v_city), (''appid'', API_KEY), (''units'', Some units)]
      in (ebind (requests_get (url, params)) (\<lambda>resp.
          ebind (raise_for_status resp) (\<lambda>_.
          ebind (resp_json resp) (\<lambda>data. get_forecast_data fromtimestamp data days))),
          sent @ [(url, params)]))"

section \<open>app.py: the script\<close>

text \<open>
  One run of the script, up to the point where rendering starts: the credential test of
  lines 19 to 22, the city input, and the two fetches inside the \<^verbatim>\<open>try\<close>. \<^verbatim>\<open>st.stop()\<close>
  ends the run. The result is the page state reached and the requests sent.
\<close>

datatype page =
    Missing_key
  | Awaiting_city
  | Fetch_failed error
  | Dashboard current "daily_summary list"

definition app ::
  "http \<Rightarrow> clock \<Rightarrow> (string \<rightharpoonup> string) \<Rightarrow> string \<Rightarrow> string \<Rightarrow> page \<times> request list" where
  "app requests_get fromtimestamp getenv v_city unit_choice =
     (let API_KEY = getenv ''OPENWEATHER_API_KEY'' in
      if key_missing API_KEY then (Missing_key, [])
      else
        let units = (if take 6 unit_choice = ''Metric'' then ''metric'' else ''imperial'') in
        if v_city = [] then (Awaiting_city, [])
        else
          case get_weather requests_get API_KEY v_city units [] of
            (Inl e, sent) \<Rightarrow> (Fetch_failed e, sent)
          | (Inr weather, sent) \<Rightarrow>
              (case get_forecast requests_get fromtimestamp API_KEY v_city units 5 sent of
                 (Inl e, sent') \<Rightarrow> (Fetch_failed e, sent')
               | (Inr forecast, sent') \<Rightarrow> (Dashboard weather forecast, sent')))"

section \<open>A process in the UTC time zone\<close>

text \<open>
  An instance of the clock, used in the examples only: the proleptic Gregorian date of
  the UTC day that contains the timestamp, written as the ten characters of
  \<^verbatim>\<open>YYYY-MM-DD\<close>; years outside 1 to 9999 are refused. It agrees with
  \<^verbatim>\<open>datetime.fromtimestamp\<close> of a process in the UTC zone on whole-second timestamps of
  ordinary dates, as in the examples; it does not reproduce the library at its edges
  (rounding of fractions to the microsecond, the first and last days of the range, the
  kind of exception raised).
\<close>

definition civil_from_days :: "int \<Rightarrow> int \<times> int \<times> int" where
  "civil_from_days z0 =
     (let z = z0 + 719468;
          era = z div 146097;
          doe = z - era * 146097;
          yoe = (doe - doe div 1460 + doe div 36524 - doe div 146096) div 365;
          doy = doe - (365 * yoe + yoe div 4 - yoe div 100);
          mp = (5 * doy + 2) div 153;
          d = doy - (153 * mp + 2) div 5 + 1;
          m = (if mp < 10 then mp + 3 else mp - 9);
          y = yoe + era * 400 + (if m \<le> 2 then 1 else 0)
      in (y, m, d))"

definition digit :: "int \<Rightarrow> char" where
  "digit n = ''0123456789'' ! nat (n mod 10)"

definition utc_date :: clock where
  "utc_date t =
     (case civil_from_days \<lfloor>t / 86400\<rfloor> of (y, m, d) \<Rightarrow>
        if y < 1 \<or> 9999 < y then Inl ValueError
        else Inr ([digit (y div 1000), digit (y div 100), digit (y div 10), digit y]
                  @ ''-'' @ [digit (m div 10), digit m]
                  @ ''-'' @ [digit (d div 10), digit d]))"

section \<open>Notions used in the statements\<close>

text \<open>The value of an entry of a parsed object and of an entry of one of its nested
  objects, \<^verbatim>\<open>None\<close> where the entry or the nested object is absent.\<close>

definition entry :: "(string \<times> json) list \<Rightarrow> string \<Rightarrow> json" where
  "entry flds k = (case map_of flds k of None \<Rightarrow> JNull | Some v \<Rightarrow> v)"

definition nested :: "(string \<times> json) list \<Rightarrow> string \<Rightarrow> string \<Rightarrow> json" where
  "nested flds k1 k2 =
     (case map_of flds k1 of Some (JObj sub) \<Rightarrow> entry sub k2 | _ \<Rightarrow> JNull)"

text \<open>An optional nested object: absent, or a dict.\<close>

definition opt_object :: "(string \<times> json) list \<Rightarrow> string \<Rightarrow> bool" where
  "opt_object flds k = (case map_of flds k of None \<Rightarrow> True | Some (JObj sub) \<Rightarrow> True | _ \<Rightarrow> False)"

text \<open>The \<^verbatim>\<open>weather\<close> entry of a well-shaped body: a list whose first element is a dict.\<close>

fun weather_list :: "json \<Rightarrow> bool" where
  "weather_list (JArr (JObj w # rest)) = True"
| "weather_list _ = False"

text \<open>The first weather dict of a body, empty where the entry is absent.\<close>

definition weather0_of :: "(string \<times> json) list \<Rightarrow> (string \<times> json) list" where
  "weather0_of flds = (case map_of flds ''weather'' of Some (JArr (JObj w # rest)) \<Rightarrow> w | _ \<Rightarrow> [])"

text \<open>The shape of a current-conditions body on which the projection of app.py is
  defined: every nested object is absent or a dict; \<^verbatim>\<open>rain\<close> may also be any false
  value; \<^verbatim>\<open>weather\<close> is absent or a list that starts with a dict.\<close>

definition current_shape :: "(string \<times> json) list \<Rightarrow> bool" where
  "current_shape flds \<longleftrightarrow>
     opt_object flds ''sys'' \<and> opt_object flds ''main'' \<and>
     opt_object flds ''wind'' \<and> opt_object flds ''clouds'' \<and>
     (case map_of flds ''rain'' of None \<Rightarrow> True | Some (JObj r) \<Rightarrow> True | Some v \<Rightarrow> \<not> truthy v) \<and>
     (case map_of flds ''weather'' of None \<Rightarrow> True | Some w \<Rightarrow> weather_list w)"

text \<open>The one-hour rainfall of a body: the \<^verbatim>\<open>1h\<close> entry of a non-empty \<^verbatim>\<open>rain\<close> dict,
  0 otherwise.\<close>

definition rain_1h_of :: "(string \<times> json) list \<Rightarrow> json" where
  "rain_1h_of flds =
     (case map_of flds ''rain'' of
        Some (JObj r) \<Rightarrow> (case map_of r ''1h'' of None \<Rightarrow> JNum 0 | Some v \<Rightarrow> v)
      | _ \<Rightarrow> JNum 0)"

text \<open>The shape fetch\_weather.py needs: \<^verbatim>\<open>main\<close> a dict with \<^verbatim>\<open>temp\<close>, \<^verbatim>\<open>weather\<close> a
  list that starts with a dict with \<^verbatim>\<open>description\<close> and \<^verbatim>\<open>icon\<close>, \<^verbatim>\<open>wind\<close> absent or a
  dict.\<close>

definition cli_shape :: "(string \<times> json) list \<Rightarrow> bool" where
  "cli_shape flds \<longleftrightarrow>
     (case map_of flds ''main'' of Some (JObj m) \<Rightarrow> map_of m ''temp'' \<noteq> None | _ \<Rightarrow> False) \<and>
     (case map_of flds ''weather'' of
        Some (JArr (JObj w # rest)) \<Rightarrow>
          map_of w ''description'' \<noteq> None \<and> map_of w ''icon'' \<noteq> None
      | _ \<Rightarrow> False) \<and>
     opt_object flds ''wind''"

text \<open>The samples of a forecast body: what the first loop of \<^verbatim>\<open>get_forecast\<close> iterates
  over (nothing where \<^verbatim>\<open>data.get\<close> or the iteration raises).\<close>

definition forecast_items :: "json \<Rightarrow> json list" where
  "forecast_items data =
     (case ebind (py_get data ''list'' (JArr [])) py_iter of Inl e \<Rightarrow> [] | Inr xs \<Rightarrow> xs)"

text \<open>The calendar date of a sample that bears a timestamp.\<close>

definition sample_date :: "clock \<Rightarrow> json \<Rightarrow> string option" where
  "sample_date fromtimestamp item =
     (case item_date fromtimestamp item of Inr (Some d) \<Rightarrow> Some d | _ \<Rightarrow> None)"

definition sample_dates :: "clock \<Rightarrow> json list \<Rightarrow> string list" where
  "sample_dates fromtimestamp items = List.map_filter (sample_date fromtimestamp) items"

text \<open>The samples of one date, in the order of the response.\<close>

definition samples_on :: "clock \<Rightarrow> json list \<Rightarrow> string \<Rightarrow> json list" where
  "samples_on fromtimestamp items d =
     filter (\<lambda>item. sample_date fromtimestamp item = Some d) items"

text \<open>The selected dates: the first \<open>days\<close> of the distinct sample dates in ascending
  order.\<close>

definition selected_dates :: "clock \<Rightarrow> json \<Rightarrow> int \<Rightarrow> string list" where
  "selected_dates fromtimestamp data days =
     slice_to (sort (remdups (sample_dates fromtimestamp (forecast_items data)))) days"

text \<open>A sample has an entry when its value under the key is true (present, and neither
  null nor empty).\<close>

definition has_entry :: "string \<Rightarrow> json \<Rightarrow> bool" where
  "has_entry k x = (case py_get x k JNull of Inl e \<Rightarrow> False | Inr v \<Rightarrow> truthy v)"

text \<open>The description (or icon) strings of the samples that have a weather entry.\<close>

definition weather_strings :: "string \<Rightarrow> json list \<Rightarrow> error + json list" where
  "weather_strings k items = list_comp (weather_field k) items"

text \<open>\<open>r\<close> is the most frequent element of \<open>xs\<close>, and the first encountered of the most
  frequent ones: it occurs before the first occurrence of every other element that is as
  frequent.\<close>

definition most_frequent_first :: "'a \<Rightarrow> 'a list \<Rightarrow> bool" where
  "most_frequent_first r xs \<longleftrightarrow>
     r \<in> set xs \<and>
     (\<forall>x \<in> set xs. count_list xs x \<le> count_list xs r) \<and>
     (\<forall>x \<in> set xs. x \<noteq> r \<and> count_list xs x = count_list xs r
        \<longrightarrow> r \<in> set (takeWhile (\<lambda>y. y \<noteq> x) xs))"

text \<open>The distinct elements of a list in the order of their first occurrence.\<close>

fun first_seen :: "'a list \<Rightarrow> 'a list" where
  "first_seen [] = []"
| "first_seen (x # xs) = x # filter (\<lambda>y. y \<noteq> x) (first_seen xs)"







section \<open>An example response\<close>

text \<open>
  A forecast body with samples on four days of November 2023 (UTC) and one sample
  without a timestamp. The first day has the three-hour rain readings 0, 2.5, absent and
  1.0 and the descriptions clear, rain, clear; the second day has no \<^verbatim>\<open>main\<close> object;
  the third has the descriptions clear, rain; the fourth has a temperature and no
  \<^verbatim>\<open>weather\<close> entry.
\<close>

definition example_forecast :: json where
  "example_forecast = JObj [(''cod'', JStr ''200''), (''list'', JArr [
     JObj [(''dt'', JNum 1699920000), (''main'', JObj [(''temp'', JNum 10.5)]),
           (''rain'', JObj [(''3h'', JNum 0)]),
           (''weather'', JArr [JObj [(''description'', JStr ''clear''), (''icon'', JStr ''01d'')]])],
     JObj [(''dt'', JNum 1699930800), (''main'', JObj [(''temp'', JNum 12)]),
           (''rain'', JObj [(''3h'', JNum 2.5)]),
           (''weather'', JArr [JObj [(''description'', JStr ''rain''), (''icon'', JStr ''10d'')]])],
     JObj [(''dt'', JNum 1699941600), (''main'', JObj [(''temp'', JNum 9)]),
           (''weather'', JArr [JObj [(''description'', JStr ''clear''), (''icon'', JStr ''01d'')]])],
     JObj [(''dt'', JNum 1699952400), (''main'', JObj [(''temp'', JNum 11)]),
           (''rain'', JObj [(''3h'', JNum 1)])],
     JObj [(''dt'', JNum 1700006400),
           (''weather'', JArr [JObj [(''description'', JStr ''clouds''), (''icon'', JStr ''03d'')]])],
     JObj [(''dt'', JNum 1700092800), (''main'', JObj [(''temp'', JNum 7)]),
           (''weather'', JArr [JObj [(''description'', JStr ''clear''), (''icon'', JStr ''01d'')]])],
     JObj [(''dt'', JNum 1700103600), (''main'', JObj [(''temp'', JNum 5)]),
           (''weather'', JArr [JObj [(''description'', JStr ''rain''), (''icon'', JStr ''10d'')]])],
     JObj [(''dt'', JNum 1700179200), (''main'', JObj [(''temp'', JNum 3)])],
     JObj [(''main'', JObj [(''temp'', JNum 99)])]])]"

section \<open>Basic facts\<close>

lemma ebind_Inr [simp]: "ebind (Inr v) f = f v"
  by (simp add: ebind_def)

lemma ebind_Inl [simp]: "ebind (Inl e) f = Inl e"
  by (simp add: ebind_def)

lemma ebind_eq_Inr: "ebind m f = Inr r \<longleftrightarrow> (\<exists>v. m = Inr v \<and> f v = Inr r)"
  by (cases m) simp_all

lemma py_get_JObj_entry: "py_get (JObj flds) k JNull = Inr (entry flds k)"
  by (simp add: entry_def)

lemma py_get_opt_object:
  "opt_object flds k \<Longrightarrow>
     ebind (py_get (JObj flds) k (JObj [])) (\<lambda>sub. py_get sub k2 JNull) = Inr (nested flds k k2)"
  by (auto simp: opt_object_def nested_def entry_def split: option.splits json.splits)

lemma py_get_opt_objectE:
  assumes "opt_object flds k"
  obtains sub where "py_get (JObj flds) k (JObj []) = Inr (JObj sub)"
    and "\<And>k2. entry sub k2 = nested flds k k2"
  using assms
  by (auto simp: opt_object_def nested_def entry_def split: option.splits json.splits)

lemma get_weather_data_shape:
  assumes "current_shape flds"
  shows "get_weather_data (JObj flds) =
     Inr \<lparr> current.city = entry flds ''name'',
           current.country = nested flds ''sys'' ''country'',
           current.temp = nested flds ''main'' ''temp'',
           current.feels_like = nested flds ''main'' ''feels_like'',
           current.humidity = nested flds ''main'' ''humidity'',
           current.pressure = nested flds ''main'' ''pressure'',
           current.description = entry (weather0_of flds) ''description'',
           current.icon = entry (weather0_of flds) ''icon'',
           current.wind_speed = nested flds ''wind'' ''speed'',
           current.clouds = nested flds ''clouds'' ''all'',
           current.rain_1h = rain_1h_of flds,
           current.sunrise = nested flds ''sys'' ''sunrise'',
           current.sunset = nested flds ''sys'' ''sunset'',
           current.dt = entry flds ''dt'' \<rparr>"
proof -
  from assms have shape: "opt_object flds ''sys''" "opt_object flds ''main''"
    "opt_object flds ''wind''" "opt_object flds ''clouds''"
    and rshape: "case map_of flds ''rain'' of None \<Rightarrow> True | Some (JObj r) \<Rightarrow> True
                 | Some v \<Rightarrow> \<not> truthy v"
    and wshape: "case map_of flds ''weather'' of None \<Rightarrow> True | Some w \<Rightarrow> weather_list w"
    by (simp_all add: current_shape_def)
  obtain sys where sys: "py_get (JObj flds) ''sys'' (JObj []) = Inr (JObj sys)"
    and sysv: "\<And>k. entry sys k = nested flds ''sys'' k"
    using shape(1) by (rule py_get_opt_objectE) blast
  obtain main where main: "py_get (JObj flds) ''main'' (JObj []) = Inr (JObj main)"
    and mainv: "\<And>k. entry main k = nested flds ''main'' k"
    using shape(2) by (rule py_get_opt_objectE) blast
  have w0: "ebind (py_get (JObj flds) ''weather'' (JArr [JObj []])) py_item0 = Inr (JObj (weather0_of flds))"
    using wshape
    by (auto simp: weather0_of_def split: option.splits elim!: weather_list.elims)
  have wind: "ebind (py_get (JObj flds) ''wind'' (JObj [])) (\<lambda>w. py_get w ''speed'' JNull) = Inr (nested flds ''wind'' ''speed'')"
    using shape(3) by (rule py_get_opt_object)
  have clouds: "ebind (py_get (JObj flds) ''clouds'' (JObj [])) (\<lambda>c. py_get c ''all'' JNull) = Inr (nested flds ''clouds'' ''all'')"
    using shape(4) by (rule py_get_opt_object)
  have rain: "(if truthy (entry flds ''rain'')
              then ebind (py_get (JObj flds) ''rain'' (JObj [])) (\<lambda>r. py_get r ''1h'' (JNum 0))
              else Inr (JNum 0)) = Inr (rain_1h_of flds)"
    using rshape
    by (auto simp: rain_1h_of_def entry_def split: option.splits json.splits)
  show ?thesis
    unfolding get_weather_data_def
    by (simp only: sys main w0 wind clouds rain ebind_Inr py_get_JObj_entry sysv mainv)
qed


lemma py_item_main_temp:
  "map_of flds ''main'' = Some (JObj m) \<Longrightarrow>
     ebind (py_item (JObj flds) ''main'') (\<lambda>m. py_get m k JNull) = Inr (nested flds ''main'' k)"
  by (simp add: nested_def entry_def)

lemma fetch_weather_data_shape:
  assumes "cli_shape flds"
  shows "fetch_weather_data (JObj flds) =
     Inr \<lparr> cli_weather.city = entry flds ''name'',
           cli_weather.temp = nested flds ''main'' ''temp'',
           cli_weather.feels_like = nested flds ''main'' ''feels_like'',
           cli_weather.humidity = nested flds ''main'' ''humidity'',
           cli_weather.pressure = nested flds ''main'' ''pressure'',
           cli_weather.description = entry (weather0_of flds) ''description'',
           cli_weather.icon = entry (weather0_of flds) ''icon'',
           cli_weather.wind_speed = nested flds ''wind'' ''speed'' \<rparr>"
proof -
  obtain m t where m: "map_of flds ''main'' = Some (JObj m)" and t: "map_of m ''temp'' = Some t"
    using assms by (auto simp: cli_shape_def split: option.splits json.splits)
  obtain w rest d i where w: "map_of flds ''weather'' = Some (JArr (JObj w # rest))"
    and d: "map_of w ''description'' = Some d" and i: "map_of w ''icon'' = Some i"
    using assms by (auto simp: cli_shape_def split: option.splits json.splits list.splits)
  have temp: "ebind (py_item (JObj flds) ''main'') (\<lambda>m. py_item m ''temp'') = Inr (nested flds ''main'' ''temp'')"
    using m t by (simp add: nested_def entry_def)
  have desc: "ebind (py_item (JObj flds) ''weather'') (\<lambda>w.
              ebind (py_item0 w) (\<lambda>w0. py_item w0 ''description'')) = Inr (entry (weather0_of flds) ''description'')"
    using w d by (simp add: weather0_of_def entry_def)
  have icon: "ebind (py_item (JObj flds) ''weather'') (\<lambda>w.
              ebind (py_item0 w) (\<lambda>w0. py_item w0 ''icon'')) = Inr (entry (weather0_of flds) ''icon'')"
    using w i by (simp add: weather0_of_def entry_def)
  have wind: "ebind (py_get (JObj flds) ''wind'' (JObj [])) (\<lambda>w. py_get w ''speed'' JNull) = Inr (nested flds ''wind'' ''speed'')"
    using assms unfolding cli_shape_def by (intro py_get_opt_object) simp
  show ?thesis
    unfolding fetch_weather_data_def
    by (simp only: temp desc icon wind py_item_main_temp [OF m] ebind_Inr py_get_JObj_entry)
qed

text \<open>
  The functions that send the request and the functions on the parsed body: when the
  request is answered without an error status by a body that parses to \<open>data\<close>,
  \<^verbatim>\<open>get_forecast\<close> returns what \<open>get_forecast_data\<close> does on \<open>data\<close>, and every result of
  \<^verbatim>\<open>get_forecast\<close> arises so; likewise for \<^verbatim>\<open>get_weather\<close>. The statements below are
  about the functions on the parsed body.
\<close>

lemma get_forecast_on_body:
  assumes "requests_get (''https://api.openweathermap.org/data/2.5/forecast'',
             [(''q'', Some c), (''appid'', key), (''units'', Some u)]) = Inr resp"
    and "raise_for_status resp = Inr ()"
    and "body resp = Some data"
  shows "fst (get_forecast requests_get clk key c u days sent) = get_forecast_data clk data days"
  using assms by (simp add: get_forecast_def resp_json_def)

lemma get_forecast_Inr:
  assumes "fst (get_forecast requests_get clk key c u days sent) = Inr res"
  shows "\<exists>resp data.
           requests_get (''https://api.openweathermap.org/data/2.5/forecast'',
             [(''q'', Some c), (''appid'', key), (''units'', Some u)]) = Inr resp \<and>
           body resp = Some data \<and> get_forecast_data clk data days = Inr res"
  using assms
  by (auto simp: get_forecast_def resp_json_def ebind_eq_Inr Let_def split: option.splits)

lemma get_weather_on_body:
  assumes "requests_get (''https://api.openweathermap.org/data/2.5/weather'',
             [(''q'', Some c), (''appid'', key), (''units'', Some u)]) = Inr resp"
    and "raise_for_status resp = Inr ()"
    and "body resp = Some data"
  shows "fst (get_weather requests_get key c u sent) = get_weather_data data"
  using assms by (simp add: get_weather_def resp_json_def)

section \<open>Current conditions\<close>

text \<open>
  C2, as the code has it. On a body that is a dict in which \<^verbatim>\<open>sys\<close>, \<^verbatim>\<open>main\<close>,
  \<^verbatim>\<open>wind\<close> and \<^verbatim>\<open>clouds\<close> are absent or dicts, \<^verbatim>\<open>rain\<close> is absent, a false value or a
  dict, and \<^verbatim>\<open>weather\<close> is absent or a list that starts with a dict, the projection of
  app.py raises nothing and returns the record in which every absent field is \<^verbatim>\<open>None\<close>
  and the rainfall of a body without rain is 0. The projection of fetch\_weather.py
  returns its record on a body whose \<^verbatim>\<open>main\<close> is a dict with \<^verbatim>\<open>temp\<close> and whose
  \<^verbatim>\<open>weather\<close> starts with a dict with \<^verbatim>\<open>description\<close> and \<^verbatim>\<open>icon\<close>; its other fields
  are \<^verbatim>\<open>None\<close> where absent.
\<close>

theorem projection_on_shaped_body:
  "(current_shape flds \<longrightarrow>
      get_weather_data (JObj flds) =
        Inr \<lparr> current.city = entry flds ''name'',
              current.country = nested flds ''sys'' ''country'',
              current.temp = nested flds ''main'' ''temp'',
              current.feels_like = nested flds ''main'' ''feels_like'',
              current.humidity = nested flds ''main'' ''humidity'',
              current.pressure = nested flds ''main'' ''pressure'',
              current.description = entry (weather0_of flds) ''description'',
              current.icon = entry (weather0_of flds) ''icon'',
              current.wind_speed = nested flds ''wind'' ''speed'',
              current.clouds = nested flds ''clouds'' ''all'',
              current.rain_1h = rain_1h_of flds,
              current.sunrise = nested flds ''sys'' ''sunrise'',
              current.sunset = nested flds ''sys'' ''sunset'',
              current.dt = entry flds ''dt'' \<rparr>) \<and>
   (cli_shape flds \<longrightarrow>
      fetch_weather_data (JObj flds) =
        Inr \<lparr> cli_weather.city = entry flds ''name'',
              cli_weather.temp = nested flds ''main'' ''temp'',
              cli_weather.feels_like = nested flds ''main'' ''feels_like'',
              cli_weather.humidity = nested flds ''main'' ''humidity'',
              cli_weather.pressure = nested flds ''main'' ''pressure'',
              cli_weather.description = entry (weather0_of flds) ''description'',
              cli_weather.icon = entry (weather0_of flds) ''icon'',
              cli_weather.wind_speed = nested flds ''wind'' ''speed'' \<rparr>)"
  using get_weather_data_shape fetch_weather_data_shape by blast

theorem projection_on_shaped_body_witness:
  "current_shape [(''name'', JStr ''London''), (''main'', JObj [(''temp'', JNum 11)])] \<and>
   get_weather_data (JObj [(''name'', JStr ''London''), (''main'', JObj [(''temp'', JNum 11)])]) =
     Inr \<lparr> current.city = JStr ''London'', current.country = JNull,
           current.temp = JNum 11, current.feels_like = JNull, current.humidity = JNull,
           current.pressure = JNull, current.description = JNull, current.icon = JNull,
           current.wind_speed = JNull, current.clouds = JNull, current.rain_1h = JNum 0,
           current.sunrise = JNull, current.sunset = JNull, current.dt = JNull \<rparr> \<and>
   cli_shape [(''main'', JObj [(''temp'', JNum 11)]),
              (''weather'', JArr [JObj [(''description'', JStr ''mist''), (''icon'', JStr ''50d'')]])] \<and>
   fetch_weather_data (JObj [(''main'', JObj [(''temp'', JNum 11)]),
              (''weather'', JArr [JObj [(''description'', JStr ''mist''), (''icon'', JStr ''50d'')]])]) =
     Inr \<lparr> cli_weather.city = JNull, cli_weather.temp = JNum 11,
           cli_weather.feels_like = JNull, cli_weather.humidity = JNull,
           cli_weather.pressure = JNull, cli_weather.description = JStr ''mist'',
           cli_weather.icon = JStr ''50d'', cli_weather.wind_speed = JNull \<rparr>"
proof -
  have a: "current_shape [(''name'', JStr ''London''), (''main'', JObj [(''temp'', JNum 11)])]"
    by (simp add: current_shape_def opt_object_def)
  have b: "cli_shape [(''main'', JObj [(''temp'', JNum 11)]),
              (''weather'', JArr [JObj [(''description'', JStr ''mist''), (''icon'', JStr ''50d'')]])]"
    by (simp add: cli_shape_def opt_object_def)
  show ?thesis
    using a b
      projection_on_shaped_body [of "[(''name'', JStr ''London''), (''main'', JObj [(''temp'', JNum 11)])]"]
      projection_on_shaped_body [of "[(''main'', JObj [(''temp'', JNum 11)]),
              (''weather'', JArr [JObj [(''description'', JStr ''mist''), (''icon'', JStr ''50d'')]])]"]
    by (simp add: entry_def nested_def weather0_of_def rain_1h_of_def)
qed

text \<open>
  C2 as stated fails: the projection of fetch\_weather.py raises \<^verbatim>\<open>KeyError\<close> on a body
  whose \<^verbatim>\<open>main\<close> object lacks \<^verbatim>\<open>temp\<close>, and the projection of app.py raises
  \<^verbatim>\<open>IndexError\<close> on a body whose \<^verbatim>\<open>weather\<close> list is empty; both bodies are dicts.
\<close>

theorem projection_throws_counterexample:
  "fetch_weather_data (JObj [(''name'', JStr ''London''), (''main'', JObj [(''humidity'', JNum 80)]),
      (''weather'', JArr [JObj [(''description'', JStr ''mist''), (''icon'', JStr ''50d'')]])])
     = Inl KeyError \<and>
   get_weather_data (JObj [(''name'', JStr ''London''), (''weather'', JArr [])]) = Inl IndexError"
  by (simp add: fetch_weather_data_def get_weather_data_def)

text \<open>
  C7: for a body that lacks the \<^verbatim>\<open>rain\<close> object, or whose \<^verbatim>\<open>rain\<close> object lacks
  \<^verbatim>\<open>1h\<close>, every record that \<^verbatim>\<open>get_weather\<close> of app.py returns has \<^verbatim>\<open>rain_1h\<close> equal to
  the number 0; and it does return a record when the rest of the body is well shaped.
\<close>

theorem rain_1h_default:
  assumes "map_of flds ''rain'' = None \<or>
           (\<exists>r. map_of flds ''rain'' = Some (JObj r) \<and> map_of r ''1h'' = None)"
  shows "(\<forall>w. get_weather_data (JObj flds) = Inr w \<longrightarrow> rain_1h w = JNum 0) \<and>
         (current_shape flds \<longrightarrow> (\<exists>w. get_weather_data (JObj flds) = Inr w))"
proof -
  have rain: "ebind (py_get (JObj flds) ''rain'' JNull) (\<lambda>r.
              if truthy r
              then ebind (py_get (JObj flds) ''rain'' (JObj [])) (\<lambda>r. py_get r ''1h'' (JNum 0))
              else Inr (JNum 0)) = Inr (JNum 0)"
    using assms by auto
  have "rain_1h w = JNum 0" if "get_weather_data (JObj flds) = Inr w" for w
    using that unfolding get_weather_data_def rain
    by (auto simp: ebind_eq_Inr)
  then show ?thesis
    using get_weather_data_shape by blast
qed

theorem rain_1h_default_witness:
  "map_of [(''name'', JStr ''London''), (''main'', JObj [(''temp'', JNum 11)])] ''rain'' = None \<and>
   (\<exists>w. get_weather_data (JObj [(''name'', JStr ''London''), (''main'', JObj [(''temp'', JNum 11)])]) = Inr w
      \<and> rain_1h w = JNum 0)"
proof -
  let ?flds = "[(''name'', JStr ''London''), (''main'', JObj [(''temp'', JNum 11)])]"
  have h: "map_of ?flds ''rain'' = None \<or>
           (\<exists>r. map_of ?flds ''rain'' = Some (JObj r) \<and> map_of r ''1h'' = None)"
    by simp
  have s: "current_shape ?flds"
    by (simp add: current_shape_def opt_object_def)
  from rain_1h_default [OF h] s show ?thesis
    by auto
qed

section \<open>The credential\<close>

text \<open>
  C9, as the code has it. When the credential is unset or empty, a run of app.py stops at
  the test at the top of the script and sends no request; its \<^verbatim>\<open>get_weather\<close> and
  \<^verbatim>\<open>get_forecast\<close> contain no test of their own (they always send their request). In
  fetch\_weather.py the test is inside \<^verbatim>\<open>get_weather\<close>: every call without the
  credential raises \<^verbatim>\<open>RuntimeError\<close> before a request is sent.
\<close>

theorem credential_check:
  assumes "key_missing key"
  shows "(getenv ''OPENWEATHER_API_KEY'' = key \<longrightarrow>
            app requests_get clk getenv c unit_choice = (Missing_key, [])) \<and>
         fetch_weather_get_weather requests_get key c u sent = (Inl RuntimeError, sent) \<and>
         snd (get_weather requests_get key c u sent) \<noteq> sent \<and>
         snd (get_forecast requests_get clk key c u days sent) \<noteq> sent"
  using assms
  by (simp add: app_def fetch_weather_get_weather_def get_weather_def get_forecast_def Let_def)

theorem credential_check_witness:
  "key_missing None \<and>
   app (\<lambda>r. Inl RequestException) utc_date Map.empty ''London'' ''Metric'' = (Missing_key, []) \<and>
   fetch_weather_get_weather (\<lambda>r. Inl RequestException) None ''London'' ''metric'' [] = (Inl RuntimeError, [])"
proof -
  have h: "key_missing None"
    by (simp add: key_missing_def)
  from credential_check [OF h, of Map.empty "\<lambda>r. Inl RequestException" utc_date "''London''" "''Metric''" "''metric''" "[]"]
  show ?thesis using h by simp
qed

text \<open>
  C9 as stated fails: with the credential unset, \<^verbatim>\<open>get_weather\<close> of fetch\_weather.py
  reports the absence as the error of the call.
\<close>

theorem credential_per_request_counterexample:
  "fetch_weather_get_weather
     (\<lambda>r. Inr \<lparr> status_code = 200, body = Some (JObj []) \<rparr>) None ''London'' ''metric'' []
     = (Inl RuntimeError, [])"
  by (simp add: fetch_weather_get_weather_def key_missing_def)

section \<open>The forecast\<close>

text \<open>
  C8: when the request succeeds and the body is a dict whose \<^verbatim>\<open>list\<close> entry is absent or
  the empty list, \<^verbatim>\<open>get_forecast\<close> returns the empty list, for every day count.
\<close>

theorem get_forecast_empty_list:
  assumes "requests_get (''https://api.openweathermap.org/data/2.5/forecast'',
             [(''q'', Some c), (''appid'', key), (''units'', Some u)]) = Inr resp"
    and "status_code resp < 400"
    and "body resp = Some (JObj flds)"
    and "map_of flds ''list'' = None \<or> map_of flds ''list'' = Some (JArr [])"
  shows "fst (get_forecast requests_get clk key c u days sent) = Inr []"
  using assms
  by (auto simp: get_forecast_def raise_for_status_def resp_json_def get_forecast_data_def
      slice_to_def)

theorem get_forecast_empty_list_witness:
  "fst (get_forecast
     (\<lambda>r. Inr \<lparr> status_code = 200, body = Some (JObj [(''cod'', JStr ''200''), (''list'', JArr [])]) \<rparr>)
     utc_date (Some ''k'') ''London'' ''metric'' 5 []) = Inr []"
  by (rule get_forecast_empty_list
      [where resp = "\<lparr> status_code = 200, body = Some (JObj [(''cod'', JStr ''200''), (''list'', JArr [])]) \<rparr>"
         and flds = "[(''cod'', JStr ''200''), (''list'', JArr [])]"]) simp_all


subsection \<open>The two loops\<close>

lemma map_of_dict_append:
  "map_of (dict_append daily d item) = (map_of daily)(d \<mapsto> dict_items daily d @ [item])"
  by (induction daily d item rule: dict_append.induct)
     (auto simp: dict_items_def fun_upd_twist)

lemma dict_items_dict_append:
  "dict_items (dict_append daily d item) d' =
     (if d' = d then dict_items daily d @ [item] else dict_items daily d')"
  by (simp add: dict_items_def map_of_dict_append)

lemma keys_dict_append:
  "map fst (dict_append daily d item) =
     (if d \<in> set (map fst daily) then map fst daily else map fst daily @ [d])"
  by (induction daily d item rule: dict_append.induct) auto

lemma sample_dates_Cons:
  "sample_dates clk (item # items) =
     (case sample_date clk item of None \<Rightarrow> sample_dates clk items
      | Some d \<Rightarrow> d # sample_dates clk items)"
  by (simp add: sample_dates_def split: option.splits)

lemma sample_dates_Nil [simp]: "sample_dates clk [] = []"
  by (simp add: sample_dates_def)

lemma group_by_date_Inr:
  assumes "group_by_date clk items daily = Inr daily'" and "distinct (map fst daily)"
  shows "distinct (map fst daily') \<and>
         set (map fst daily') = set (map fst daily) \<union> set (sample_dates clk items) \<and>
         (\<forall>d. dict_items daily' d = dict_items daily d @ samples_on clk items d)"
  using assms
proof (induction items arbitrary: daily)
  case Nil
  then show ?case by (simp add: samples_on_def)
next
  case (Cons item items)
  show ?case
  proof (cases "item_date clk item")
    case (Inl e)
    with Cons.prems show ?thesis by simp
  next
    case (Inr od)
    show ?thesis
    proof (cases od)
      case None
      with Inr Cons.prems have "group_by_date clk items daily = Inr daily'" by simp
      from Cons.IH [OF this Cons.prems(2)] Inr None show ?thesis
        by (simp add: sample_dates_Cons sample_date_def samples_on_def)
    next
      case (Some d)
      with Inr Cons.prems have g: "group_by_date clk items (dict_append daily d item) = Inr daily'"
        by simp
      have dist: "distinct (map fst (dict_append daily d item))"
        using Cons.prems(2) by (simp add: keys_dict_append)
      have sd: "sample_date clk item = Some d"
        using Inr Some by (simp add: sample_date_def)
      from Cons.IH [OF g dist] sd show ?thesis
        by (auto simp: sample_dates_Cons samples_on_def keys_dict_append dict_items_dict_append)
    qed
  qed
qed

lemma day_summary_date: "day_summary d items = Inr (Some s) \<Longrightarrow> date s = d"
  unfolding day_summary_def
  by (auto simp: ebind_eq_Inr split: if_splits)

lemma summarise_dates:
  "summarise ds daily = Inr res \<Longrightarrow>
     map date res = filter (\<lambda>d. day_summary d (dict_items daily d) \<noteq> Inr None) ds"
proof (induction ds arbitrary: res)
  case Nil
  then show ?case by simp
next
  case (Cons d ds)
  then show ?case
    by (auto split: sum.splits option.splits dest: day_summary_date)
qed

lemma summarise_source:
  "summarise ds daily = Inr res \<Longrightarrow> s \<in> set res \<Longrightarrow>
     \<exists>d \<in> set ds. day_summary d (dict_items daily d) = Inr (Some s)"
proof (induction ds arbitrary: res)
  case Nil
  then show ?case by simp
next
  case (Cons d ds)
  then show ?case
    by (auto split: sum.splits option.splits)
qed

lemma summarise_member:
  assumes "summarise ds daily = Inr res" and "s \<in> set res"
  shows "date s \<in> set ds \<and> day_summary (date s) (dict_items daily (date s)) = Inr (Some s)"
proof -
  from summarise_source [OF assms] obtain d
    where d: "d \<in> set ds" "day_summary d (dict_items daily d) = Inr (Some s)" by blast
  from d(2) have "date s = d" by (rule day_summary_date)
  with d show ?thesis by simp
qed

lemma summarise_each:
  "summarise ds daily = Inr res \<Longrightarrow> d \<in> set ds \<Longrightarrow>
     \<exists>r. day_summary d (dict_items daily d) = Inr r \<and> (\<forall>s. r = Some s \<longrightarrow> s \<in> set res)"
proof (induction ds arbitrary: res)
  case Nil
  then show ?case by simp
next
  case (Cons d' ds)
  then show ?case
    by (auto split: sum.splits option.splits)
qed

lemma forecast_items_Inr:
  "py_get data ''list'' (JArr []) = Inr l \<Longrightarrow> py_iter l = Inr items \<Longrightarrow> forecast_items data = items"
  by (simp add: forecast_items_def)

lemma get_forecast_data_Inr:
  assumes "get_forecast_data clk data days = Inr res"
  shows "\<exists>daily. group_by_date clk (forecast_items data) [] = Inr daily \<and>
           summarise (selected_dates clk data days) daily = Inr res \<and>
           (\<forall>d. dict_items daily d = samples_on clk (forecast_items data) d)"
proof -
  from assms obtain l items daily where l: "py_get data ''list'' (JArr []) = Inr l"
    and it: "py_iter l = Inr items"
    and g: "group_by_date clk items [] = Inr daily"
    and s: "summarise (slice_to (sort (map fst daily)) days) daily = Inr res"
    by (auto simp: get_forecast_data_def ebind_eq_Inr)
  have fi: "forecast_items data = items"
    using l it by (rule forecast_items_Inr)
  have "distinct (map fst ([] :: (string \<times> json list) list))" by simp
  note grp = group_by_date_Inr [OF g this]
  have dist: "distinct (map fst daily)"
    using grp by simp
  have keys: "set (map fst daily) = set (sample_dates clk items)"
    using grp by simp
  have its: "\<forall>d. dict_items daily d = samples_on clk items d"
    using grp by (simp add: dict_items_def)
  have "sort (map fst daily) = sort (remdups (sample_dates clk items))"
    by (rule sorted_distinct_set_unique) (use dist keys in simp_all)
  with s have "summarise (selected_dates clk data days) daily = Inr res"
    by (simp add: selected_dates_def fi)
  with g its fi show ?thesis by auto
qed

lemma distinct_selected_dates: "distinct (selected_dates clk data days)"
  by (simp add: selected_dates_def slice_to_def)

lemma sorted_selected_dates: "sorted (selected_dates clk data days)"
  by (simp add: selected_dates_def slice_to_def sorted_wrt_take)

lemma length_selected_dates:
  "0 \<le> days \<Longrightarrow>
     length (selected_dates clk data days)
       = min (card (set (sample_dates clk (forecast_items data)))) (nat days)"
  by (simp add: selected_dates_def slice_to_def length_remdups_card_conv min.commute)

lemma get_forecast_data_summary:
  assumes "get_forecast_data clk data days = Inr res" and "s \<in> set res"
  shows "date s \<in> set (selected_dates clk data days) \<and>
         day_summary (date s) (samples_on clk (forecast_items data) (date s)) = Inr (Some s)"
proof -
  from get_forecast_data_Inr [OF assms(1)] obtain daily
    where sm: "summarise (selected_dates clk data days) daily = Inr res"
      and its: "\<forall>d. dict_items daily d = samples_on clk (forecast_items data) d" by blast
  from summarise_member [OF sm assms(2)] its show ?thesis by simp
qed


lemma day_summary_SomeD:
  assumes "day_summary d items = Inr (Some s)"
  shows "\<exists>temps rains descs icons.
           list_comp temp_of items = Inr temps \<and> temps \<noteq> [] \<and>
           list_comp rain_of items = Inr rains \<and>
           list_comp (weather_field ''description'') items = Inr descs \<and>
           list_comp (weather_field ''icon'') items = Inr icons \<and>
           py_min temps = Inr (temp_min s) \<and> py_max temps = Inr (temp_max s) \<and>
           py_sum rains = Inr (rain_mm s) \<and>
           (if descs \<noteq> [] then most_common_key descs else Inr (JStr [])) = Inr (daily_summary.description s) \<and>
           (if icons \<noteq> [] then most_common_key icons else Inr JNull) = Inr (daily_summary.icon s)"
proof -
  from assms obtain temps rains descs icons
    where a: "list_comp temp_of items = Inr temps" "list_comp rain_of items = Inr rains"
      "list_comp (weather_field ''description'') items = Inr descs"
      "list_comp (weather_field ''icon'') items = Inr icons"
    and b: "(if temps = [] then Inr None
       else
         ebind (py_min temps) (\<lambda>v_min.
         ebind (py_max temps) (\<lambda>v_max.
         ebind (py_sum rains) (\<lambda>v_rain.
         ebind (if descs \<noteq> [] then most_common_key descs else Inr (JStr [])) (\<lambda>v_desc.
         ebind (if icons \<noteq> [] then most_common_key icons else Inr JNull) (\<lambda>v_icon.
           Inr (Some \<lparr> date = d, temp_min = v_min, temp_max = v_max, rain_mm = v_rain,
                       description = v_desc, icon = v_icon \<rparr>))))))) = Inr (Some s)"
    unfolding day_summary_def ebind_eq_Inr by blast
  from b have ne: "temps \<noteq> []" by (auto split: if_splits)
  with b have b': "ebind (py_min temps) (\<lambda>v_min.
         ebind (py_max temps) (\<lambda>v_max.
         ebind (py_sum rains) (\<lambda>v_rain.
         ebind (if descs \<noteq> [] then most_common_key descs else Inr (JStr [])) (\<lambda>v_desc.
         ebind (if icons \<noteq> [] then most_common_key icons else Inr JNull) (\<lambda>v_icon.
           Inr (Some \<lparr> date = d, temp_min = v_min, temp_max = v_max, rain_mm = v_rain,
                       description = v_desc, icon = v_icon \<rparr>)))))) = Inr (Some s)"
    by simp
  from b' obtain v_min v_max v_rain v_desc v_icon
    where c: "py_min temps = Inr v_min" "py_max temps = Inr v_max" "py_sum rains = Inr v_rain"
      "(if descs \<noteq> [] then most_common_key descs else Inr (JStr [])) = Inr v_desc"
      "(if icons \<noteq> [] then most_common_key icons else Inr JNull) = Inr v_icon"
      and s: "s = \<lparr> date = d, temp_min = v_min, temp_max = v_max, rain_mm = v_rain,
                       description = v_desc, icon = v_icon \<rparr>"
    unfolding ebind_eq_Inr by auto
  show ?thesis
    using a ne c unfolding s by simp
qed

lemma py_lt_num_left:
  "py_lt x y = Inr b \<Longrightarrow> num_of x = Some a \<Longrightarrow> \<exists>c. num_of y = Some c \<and> b = (a < c)"
  by (cases x; cases y) (auto split: if_splits)

lemma py_lt_num_right:
  "py_lt x y = Inr b \<Longrightarrow> num_of y = Some c \<Longrightarrow> \<exists>a. num_of x = Some a \<and> b = (a < c)"
  by (cases x; cases y) (auto split: if_splits)

lemma min_loop_num:
  "min_loop best xs = Inr m \<Longrightarrow> num_of m = Some a \<Longrightarrow> \<exists>b. num_of best = Some b \<and> a \<le> b"
proof (induction xs arbitrary: best)
  case Nil
  then show ?case by simp
next
  case (Cons x xs)
  from Cons.prems(1) obtain b where lt: "py_lt x best = Inr b"
    and rec: "min_loop (if b then x else best) xs = Inr m"
    by (auto split: sum.splits)
  from Cons.IH [OF rec Cons.prems(2)] obtain c
    where c: "num_of (if b then x else best) = Some c" "a \<le> c" by blast
  show ?case
  proof (cases b)
    case True
    with c have "num_of x = Some c" by simp
    from py_lt_num_left [OF lt this] True obtain c' where "num_of best = Some c'" "c < c'" by auto
    with c(2) show ?thesis by auto
  next
    case False
    with c show ?thesis by auto
  qed
qed

lemma max_loop_num:
  "max_loop best xs = Inr m \<Longrightarrow> num_of m = Some a \<Longrightarrow> \<exists>b. num_of best = Some b \<and> b \<le> a"
proof (induction xs arbitrary: best)
  case Nil
  then show ?case by simp
next
  case (Cons x xs)
  from Cons.prems(1) obtain b where lt: "py_lt best x = Inr b"
    and rec: "max_loop (if b then x else best) xs = Inr m"
    by (auto split: sum.splits)
  from Cons.IH [OF rec Cons.prems(2)] obtain c
    where c: "num_of (if b then x else best) = Some c" "c \<le> a" by blast
  show ?case
  proof (cases b)
    case True
    with c have "num_of x = Some c" by simp
    from py_lt_num_right [OF lt this] True obtain c' where "num_of best = Some c'" "c' < c" by auto
    with c(2) show ?thesis by auto
  next
    case False
    with c show ?thesis by auto
  qed
qed

lemma example_result:
  "get_forecast_data utc_date example_forecast 5 = Inr [
     \<lparr> date = ''2023-11-14'', temp_min = JNum 9, temp_max = JNum 12, rain_mm = 3.5,
        description = JStr ''clear'', icon = JStr ''01d'' \<rparr>,
     \<lparr> date = ''2023-11-16'', temp_min = JNum 5, temp_max = JNum 7, rain_mm = 0,
        description = JStr ''clear'', icon = JStr ''01d'' \<rparr>,
     \<lparr> date = ''2023-11-17'', temp_min = JNum 3, temp_max = JNum 3, rain_mm = 0,
        description = JStr [], icon = JNull \<rparr>]"
  by code_simp

subsection \<open>The claims about the daily summaries\<close>

text \<open>
  C1: when \<^verbatim>\<open>get_forecast\<close> returns for a day count of at least 1, the number of
  summaries is at most the minimum of the number of distinct sample dates (of the samples
  that bear a timestamp) and the day count; the dates of the summaries are distinct, in
  ascending order, and are sample dates.
\<close>

theorem get_forecast_at_most_min:
  assumes "get_forecast_data clk data days = Inr res" and "1 \<le> days"
  shows "length res \<le> min (card (set (sample_dates clk (forecast_items data)))) (nat days) \<and>
         distinct (map date res) \<and> sorted (map date res) \<and>
         set (map date res) \<subseteq> set (sample_dates clk (forecast_items data))"
proof -
  from get_forecast_data_Inr [OF assms(1)] obtain daily
    where s: "summarise (selected_dates clk data days) daily = Inr res" by blast
  let ?keep = "\<lambda>d. day_summary d (dict_items daily d) \<noteq> Inr None"
  have dates: "map date res = filter ?keep (selected_dates clk data days)"
    using s by (rule summarise_dates)
  have "length (map date res) \<le> length (selected_dates clk data days)"
    unfolding dates by (rule length_filter_le)
  then have len: "length res \<le> min (card (set (sample_dates clk (forecast_items data)))) (nat days)"
    using assms(2) by (simp add: length_selected_dates)
  have dist: "distinct (map date res)"
    unfolding dates by (simp add: distinct_selected_dates)
  have sorted: "sorted (map date res)"
    unfolding dates by (intro sorted_wrt_filter sorted_selected_dates)
  have "set (map date res) \<subseteq> set (selected_dates clk data days)"
    unfolding dates by auto
  also have "\<dots> \<subseteq> set (sample_dates clk (forecast_items data))"
    using set_take_subset [of _ "sort (remdups (sample_dates clk (forecast_items data)))"]
    by (auto simp: selected_dates_def slice_to_def)
  finally show ?thesis using len dist sorted by blast
qed

theorem get_forecast_at_most_min_witness:
  "\<exists>res. get_forecast_data utc_date example_forecast 3 = Inr res \<and> (1::int) \<le> 3 \<and>
     length res = 2 \<and>
     length res \<le> min (card (set (sample_dates utc_date (forecast_items example_forecast)))) (nat 3) \<and>
     distinct (map date res) \<and> sorted (map date res)"
proof -
  have e: "get_forecast_data utc_date example_forecast 3 = Inr [
     \<lparr> date = ''2023-11-14'', temp_min = JNum 9, temp_max = JNum 12, rain_mm = 3.5,
        description = JStr ''clear'', icon = JStr ''01d'' \<rparr>,
     \<lparr> date = ''2023-11-16'', temp_min = JNum 5, temp_max = JNum 7, rain_mm = 0,
        description = JStr ''clear'', icon = JStr ''01d'' \<rparr>]"
    by code_simp
  have d: "(1::int) \<le> 3" by simp
  from get_forecast_at_most_min [OF e d] show ?thesis
    using e by simp
qed

text \<open>
  Where both temperatures of an emitted summary are numbers, the minimum is at most the
  maximum: both come from one pass each over the same non-empty list.
\<close>

lemma numeric_min_le_max:
  assumes "get_forecast_data clk data days = Inr res" and "s \<in> set res"
    and "num_of (temp_min s) = Some lo" and "num_of (temp_max s) = Some hi"
  shows "lo \<le> hi"
proof -
  from get_forecast_data_summary [OF assms(1,2)]
  have "day_summary (date s) (samples_on clk (forecast_items data) (date s)) = Inr (Some s)"
    by simp
  from day_summary_SomeD [OF this] obtain temps
    where ne: "temps \<noteq> []" and mn: "py_min temps = Inr (temp_min s)"
      and mx: "py_max temps = Inr (temp_max s)" by blast
  from ne obtain x xs where temps: "temps = x # xs" by (cases temps) auto
  from mn temps have "min_loop x xs = Inr (temp_min s)" by (simp add: py_min_def)
  from min_loop_num [OF this assms(3)] obtain b where b: "num_of x = Some b" "lo \<le> b" by blast
  from mx temps have "max_loop x xs = Inr (temp_max s)" by (simp add: py_max_def)
  from max_loop_num [OF this assms(4)] b show ?thesis by auto
qed

text \<open>
  C6 fails on the code. A sample whose \<^verbatim>\<open>main\<close> object carries \<^verbatim>\<open>temp\<close> as null passes the
  test of line 76, so the date is not dropped: the summary is emitted with \<^verbatim>\<open>None\<close> as
  both temperatures, and \<^verbatim>\<open>temp_min <= temp_max\<close> raises \<^verbatim>\<open>TypeError\<close> on it instead of
  holding.
\<close>

theorem null_temperature_summary:
  "get_forecast_data utc_date
     (JObj [(''list'', JArr [JObj [(''dt'', JNum 1699920000),
                                   (''main'', JObj [(''temp'', JNull)])]])]) 5
     = Inr [\<lparr> date = ''2023-11-14'', temp_min = JNull, temp_max = JNull, rain_mm = 0,
              description = JStr [], icon = JNull \<rparr>] \<and>
   py_le JNull JNull = Inl TypeError"
  by code_simp


subsection \<open>Dates without a temperature, samples without weather\<close>

lemma temp_of_None_iff:
  "temp_of x = Inr ot \<Longrightarrow> ot = None \<longleftrightarrow> \<not> has_entry ''main'' x"
  by (auto simp: temp_of_def has_entry_def ebind_eq_Inr split: if_splits)


lemma list_comp_Nil_iff:
  "list_comp f xs = Inr vs \<Longrightarrow> vs = [] \<longleftrightarrow> (\<forall>x \<in> set xs. f x = Inr None)"
proof (induction xs arbitrary: vs)
  case Nil
  then show ?case by simp
next
  case (Cons x xs)
  then show ?case
    by (auto split: sum.splits option.splits)
qed

lemma list_comp_each:
  "list_comp f xs = Inr vs \<Longrightarrow> x \<in> set xs \<Longrightarrow> \<exists>ov. f x = Inr ov"
proof (induction xs arbitrary: vs)
  case Nil
  then show ?case by simp
next
  case (Cons y xs)
  then show ?case
    by (auto split: sum.splits option.splits)
qed

lemma temps_Nil_iff:
  assumes "list_comp temp_of items = Inr temps"
  shows "temps = [] \<longleftrightarrow> (\<forall>x \<in> set items. \<not> has_entry ''main'' x)"
proof -
  have "temp_of x = Inr None \<longleftrightarrow> \<not> has_entry ''main'' x" if "x \<in> set items" for x
    using list_comp_each [OF assms that] temp_of_None_iff [of x] by auto
  with list_comp_Nil_iff [OF assms] show ?thesis by simp
qed


lemma day_summary_InrD:
  assumes "day_summary d items = Inr r"
  shows "\<exists>temps. list_comp temp_of items = Inr temps \<and> (r = None \<longleftrightarrow> temps = [])"
proof -
  from assms obtain temps rains descs icons
    where a: "list_comp temp_of items = Inr temps"
    and b: "(if temps = [] then Inr None
       else
         ebind (py_min temps) (\<lambda>v_min.
         ebind (py_max temps) (\<lambda>v_max.
         ebind (py_sum rains) (\<lambda>v_rain.
         ebind (if descs \<noteq> [] then most_common_key descs else Inr (JStr [])) (\<lambda>v_desc.
         ebind (if icons \<noteq> [] then most_common_key icons else Inr JNull) (\<lambda>v_icon.
           Inr (Some \<lparr> date = d, temp_min = v_min, temp_max = v_max, rain_mm = v_rain,
                       description = v_desc, icon = v_icon \<rparr>))))))) = Inr r"
    unfolding day_summary_def ebind_eq_Inr by blast
  have "r = None \<longleftrightarrow> temps = []"
  proof (cases "temps = []")
    case True
    with b show ?thesis by simp
  next
    case False
    with b have "r \<noteq> None"
      by (auto simp: ebind_eq_Inr)
    with False show ?thesis by simp
  qed
  with a show ?thesis by blast
qed

lemma day_summary_None_iff:
  assumes "day_summary d items = Inr r"
  shows "r = None \<longleftrightarrow> (\<forall>x \<in> set items. \<not> has_entry ''main'' x)"
  using day_summary_InrD [OF assms] temps_Nil_iff by blast

lemma emitted_dates:
  assumes "get_forecast_data clk data days = Inr res"
  shows "date ` set res =
           {d \<in> set (selected_dates clk data days).
              \<exists>x \<in> set (samples_on clk (forecast_items data) d). has_entry ''main'' x}"
proof -
  from get_forecast_data_Inr [OF assms] obtain daily
    where sm: "summarise (selected_dates clk data days) daily = Inr res"
      and its: "\<forall>d. dict_items daily d = samples_on clk (forecast_items data) d" by blast
  have "set (map date res) =
          {d \<in> set (selected_dates clk data days). day_summary d (dict_items daily d) \<noteq> Inr None}"
    unfolding summarise_dates [OF sm] by auto
  moreover have "day_summary d (dict_items daily d) \<noteq> Inr None \<longleftrightarrow>
           (\<exists>x \<in> set (samples_on clk (forecast_items data) d). has_entry ''main'' x)"
    if "d \<in> set (selected_dates clk data days)" for d
  proof -
    from summarise_each [OF sm that] obtain r
      where r: "day_summary d (dict_items daily d) = Inr r" by blast
    from day_summary_None_iff [OF r] r its show ?thesis by auto
  qed
  ultimately show ?thesis by auto
qed





















subsection \<open>Counting strings\<close>

lemma set_first_seen [simp]: "set (first_seen xs) = set xs"
  by (induction xs) auto

lemma distinct_first_seen [simp]: "distinct (first_seen xs)"
  by (induction xs) auto

lemma first_seen_order:
  "filter Q (first_seen xs) = pre @ k # post \<Longrightarrow> x \<in> set post \<Longrightarrow>
     k \<in> set (takeWhile (\<lambda>y. y \<noteq> x) xs)"
proof (induction xs arbitrary: Q pre)
  case Nil
  then show ?case by simp
next
  case (Cons v xs)
  let ?Q = "\<lambda>y. y \<noteq> v \<and> Q y"
  have fl: "filter Q (first_seen (v # xs)) = (if Q v then [v] else []) @ filter ?Q (first_seen xs)"
    by simp
  have "x \<in> set (filter Q (first_seen (v # xs)))"
    using Cons.prems by simp
  show ?case
  proof (cases "Q v \<and> pre = []")
    case True
    with Cons.prems(1) fl have kv: "k = v" and post: "post = filter ?Q (first_seen xs)"
      by auto
    from post Cons.prems(2) have "x \<noteq> v" by simp
    with kv show ?thesis by simp
  next
    case False
    then obtain pre' where eq: "filter ?Q (first_seen xs) = pre' @ k # post"
      using Cons.prems(1) fl by (cases pre; cases "Q v") auto
    have "x \<in> set (filter ?Q (first_seen xs))"
      unfolding eq using Cons.prems(2) by simp
    then have "x \<noteq> v" by simp
    moreover from Cons.IH [OF eq Cons.prems(2)] have "k \<in> set (takeWhile (\<lambda>y. y \<noteq> x) xs)" .
    ultimately show ?thesis by simp
  qed
qed

lemma count_incr_strings:
  assumes "distinct ks" and "v \<notin> set ks \<longrightarrow> f v = 0"
  shows "count_incr (map (\<lambda>k. (JStr k, f k)) ks) (JStr v) =
           map (\<lambda>k. (JStr k, (f(v := f v + 1)) k)) (if v \<in> set ks then ks else ks @ [v])"
  using assms
proof (induction ks)
  case Nil
  then show ?case by simp
next
  case (Cons k ks)
  show ?case
  proof (cases "k = v")
    case True
    with Cons.prems(1) have "v \<notin> set ks" by simp
    then have "map (\<lambda>k. (JStr k, (f(v := f v + 1)) k)) ks = map (\<lambda>k. (JStr k, f k)) ks"
      by (intro map_cong) auto
    with True show ?thesis by simp
  next
    case False
    with Cons show ?thesis by auto
  qed
qed

lemma count_elements_strings:
  assumes "distinct ks" and "\<forall>v. v \<notin> set ks \<longrightarrow> f v = 0"
  shows "count_elements (map (\<lambda>k. (JStr k, f k)) ks) (map JStr ss) =
           Inr (map (\<lambda>k. (JStr k, f k + count_list ss k))
                  (ks @ filter (\<lambda>y. y \<notin> set ks) (first_seen ss)))"
  using assms
proof (induction ss arbitrary: ks f)
  case Nil
  then show ?case by simp
next
  case (Cons v ss)
  let ?ks = "if v \<in> set ks then ks else ks @ [v]"
  let ?f = "f(v := f v + 1)"
  have step: "count_incr (map (\<lambda>k. (JStr k, f k)) ks) (JStr v) = map (\<lambda>k. (JStr k, ?f k)) ?ks"
    using Cons.prems by (intro count_incr_strings) auto
  have d: "distinct ?ks" using Cons.prems(1) by simp
  have z: "\<forall>u. u \<notin> set ?ks \<longrightarrow> ?f u = 0" using Cons.prems(2) by auto
  have cnt: "(\<lambda>k. (JStr k, ?f k + count_list ss k)) = (\<lambda>k. (JStr k, f k + count_list (v # ss) k))"
    by auto
  have keys: "?ks @ filter (\<lambda>y. y \<notin> set ?ks) (first_seen ss)
                = ks @ filter (\<lambda>y. y \<notin> set ks) (first_seen (v # ss))"
    by (auto simp: conj_commute intro!: filter_cong)
  show ?case
    using Cons.IH [OF d z] by (simp only: list.map count_elements.simps hashable.simps if_True step cnt keys)
qed

lemma Counter_strings:
  "Counter (map JStr ss) = Inr (map (\<lambda>k. (JStr k, count_list ss k)) (first_seen ss))"
  using count_elements_strings [of "[]" "\<lambda>_. 0" ss] by (simp add: Counter_def)

lemma max_count_split:
  "\<exists>pre post. best # kcs = pre @ max_count best kcs # post \<and>
     (\<forall>x \<in> set pre. snd x < snd (max_count best kcs)) \<and>
     (\<forall>x \<in> set post. snd x \<le> snd (max_count best kcs))"
proof (induction kcs arbitrary: best)
  case Nil
  show ?case by (intro exI [of _ "[]"]) simp
next
  case (Cons kc kcs)
  define b where "b = (if snd best < snd kc then kc else best)"
  define r where "r = max_count b kcs"
  have r: "max_count best (kc # kcs) = r" by (simp add: r_def b_def)
  from Cons.IH [of b] obtain pre post where sp: "b # kcs = pre @ r # post"
    and lt: "\<forall>x \<in> set pre. snd x < snd r" and le: "\<forall>x \<in> set post. snd x \<le> snd r"
    unfolding r_def by blast
  have "b \<in> set (pre @ r # post)" unfolding sp [symmetric] by simp
  with lt le have ble: "snd b \<le> snd r" by (auto simp: less_imp_le)
  have "\<exists>pre post. best # kc # kcs = pre @ r # post \<and>
     (\<forall>x \<in> set pre. snd x < snd r) \<and> (\<forall>x \<in> set post. snd x \<le> snd r)"
  proof (cases "snd best < snd kc")
    case True
    then have "b = kc" by (simp add: b_def)
    with sp have "best # kc # kcs = (best # pre) @ r # post" by simp
    moreover from True ble \<open>b = kc\<close> have "snd best < snd r" by simp
    ultimately show ?thesis using lt le
      by (intro exI [of _ "best # pre"] exI [of _ post]) simp
  next
    case False
    then have "b = best" by (simp add: b_def)
    with sp have sp': "best # kcs = pre @ r # post" by simp
    show ?thesis
    proof (cases pre)
      case Nil
      with sp' have "r = best" "kcs = post" by simp_all
      with False le show ?thesis
        by (intro exI [of _ "[]"] exI [of _ "kc # post"]) (simp add: not_less)
    next
      case (Cons p pre')
      with sp' have p: "p = best" and kcs: "kcs = pre' @ r # post" by simp_all
      from lt Cons p have "snd best < snd r" by simp
      with False have "snd kc < snd r" by simp
      with lt Cons p kcs le show ?thesis
        by (intro exI [of _ "best # kc # pre'"] exI [of _ post]) simp
    qed
  qed
  then show ?case unfolding r .
qed

lemma most_common_key_strings:
  assumes "ss \<noteq> []"
  shows "\<exists>k. most_common_key (map JStr ss) = Inr (JStr k) \<and> most_frequent_first k ss"
proof -
  let ?g = "\<lambda>k. (JStr k, count_list ss k)"
  from assms obtain u us where us: "first_seen ss = u # us"
    by (cases ss) auto
  let ?r = "max_count (?g u) (map ?g us)"
  have key: "most_common_key (map JStr ss) = Inr (fst ?r)"
    by (simp add: most_common_key_def Counter_strings us most_common1_def)
  from max_count_split [of "?g u" "map ?g us"] obtain pre post
    where sp: "map ?g (first_seen ss) = pre @ ?r # post"
      and lt: "\<forall>x \<in> set pre. snd x < snd ?r" and le: "\<forall>x \<in> set post. snd x \<le> snd ?r"
    unfolding us by auto
  from sp obtain pre' k post' where fs: "first_seen ss = pre' @ k # post'"
    and pre: "pre = map ?g pre'" and r: "?r = ?g k" and post: "post = map ?g post'"
    by (auto simp: map_eq_append_conv map_eq_Cons_conv)
  have k_in: "k \<in> set ss"
    using fs set_first_seen [of ss] by auto
  have lt': "count_list ss x < count_list ss k" if "x \<in> set pre'" for x
    using lt that unfolding pre r by simp
  have le': "count_list ss x \<le> count_list ss k" if "x \<in> set post'" for x
    using le that unfolding post r by simp
  have cases: "x \<in> set pre' \<or> x = k \<or> x \<in> set post'" if "x \<in> set ss" for x
    using that fs set_first_seen [of ss] by auto
  have max: "count_list ss x \<le> count_list ss k" if "x \<in> set ss" for x
    using cases [OF that] lt' le' by (auto simp: less_imp_le)
  have first: "k \<in> set (takeWhile (\<lambda>y. y \<noteq> x) ss)"
    if "x \<in> set ss" "x \<noteq> k" "count_list ss x = count_list ss k" for x
  proof -
    from cases [OF that(1)] that(2,3) lt' have "x \<in> set post'" by force
    moreover have "filter (\<lambda>_. True) (first_seen ss) = pre' @ k # post'"
      using fs by simp
    ultimately show ?thesis by (rule first_seen_order [rotated])
  qed
  have "most_frequent_first k ss"
    unfolding most_frequent_first_def using k_in max first by blast
  with key r show ?thesis by simp
qed

subsection \<open>The claims about dropped dates and about descriptions\<close>

text \<open>
  C3: in every emitted summary, when the descriptions of the date's samples that have a
  weather entry are strings, the description is the most frequent of them, and among
  equally frequent ones the one encountered first; the icon is chosen by the same rule.
  In the example response the descriptions clear, rain, clear give clear, and the
  descriptions clear, rain give clear.
\<close>

theorem most_frequent_description:
  assumes "get_forecast_data clk data days = Inr res" and "s \<in> set res"
  shows "(\<forall>ds. weather_strings ''description''
                 (samples_on clk (forecast_items data) (date s)) = Inr (map JStr ds) \<and> ds \<noteq> []
            \<longrightarrow> (\<exists>k. daily_summary.description s = JStr k \<and> most_frequent_first k ds)) \<and>
         (\<forall>ics. weather_strings ''icon''
                 (samples_on clk (forecast_items data) (date s)) = Inr (map JStr ics) \<and> ics \<noteq> []
            \<longrightarrow> (\<exists>k. daily_summary.icon s = JStr k \<and> most_frequent_first k ics))"
proof -
  from get_forecast_data_summary [OF assms]
  have "day_summary (date s) (samples_on clk (forecast_items data) (date s)) = Inr (Some s)"
    by simp
  from day_summary_SomeD [OF this] obtain descs icons
    where d: "weather_strings ''description'' (samples_on clk (forecast_items data) (date s)) = Inr descs"
      and i: "weather_strings ''icon'' (samples_on clk (forecast_items data) (date s)) = Inr icons"
      and dv: "(if descs \<noteq> [] then most_common_key descs else Inr (JStr [])) = Inr (daily_summary.description s)"
      and iv: "(if icons \<noteq> [] then most_common_key icons else Inr JNull) = Inr (daily_summary.icon s)"
    unfolding weather_strings_def by blast
  have "\<exists>k. daily_summary.description s = JStr k \<and> most_frequent_first k ds"
    if "descs = map JStr ds" "ds \<noteq> []" for ds
    using most_common_key_strings [OF that(2)] dv that by auto
  moreover have "\<exists>k. daily_summary.icon s = JStr k \<and> most_frequent_first k ics"
    if "icons = map JStr ics" "ics \<noteq> []" for ics
    using most_common_key_strings [OF that(2)] iv that by auto
  ultimately show ?thesis
    using d i by auto
qed

theorem most_frequent_description_witness:
  "\<exists>res s t. get_forecast_data utc_date example_forecast 5 = Inr res \<and> s \<in> set res \<and> t \<in> set res \<and>
     weather_strings ''description'' (samples_on utc_date (forecast_items example_forecast) (date s))
       = Inr (map JStr [''clear'', ''rain'', ''clear'']) \<and>
     daily_summary.description s = JStr ''clear'' \<and>
     most_frequent_first ''clear'' [''clear'', ''rain'', ''clear''] \<and>
     weather_strings ''icon'' (samples_on utc_date (forecast_items example_forecast) (date s))
       = Inr (map JStr [''01d'', ''10d'', ''01d'']) \<and>
     daily_summary.icon s = JStr ''01d'' \<and>
     most_frequent_first ''01d'' [''01d'', ''10d'', ''01d''] \<and>
     weather_strings ''description'' (samples_on utc_date (forecast_items example_forecast) (date t))
       = Inr (map JStr [''clear'', ''rain'']) \<and>
     daily_summary.description t = JStr ''clear'' \<and>
     most_frequent_first ''clear'' [''clear'', ''rain'']"
proof -
  let ?s = "\<lparr> date = ''2023-11-14'', temp_min = JNum 9, temp_max = JNum 12, rain_mm = 3.5,
        description = JStr ''clear'', icon = JStr ''01d'' \<rparr>"
  let ?t = "\<lparr> date = ''2023-11-16'', temp_min = JNum 5, temp_max = JNum 7, rain_mm = 0,
        description = JStr ''clear'', icon = JStr ''01d'' \<rparr>"
  let ?res = "[?s, ?t,
     \<lparr> date = ''2023-11-17'', temp_min = JNum 3, temp_max = JNum 3, rain_mm = 0,
        description = JStr [], icon = JNull \<rparr>]"
  have ds: "weather_strings ''description''
              (samples_on utc_date (forecast_items example_forecast) ''2023-11-14'')
            = Inr (map JStr [''clear'', ''rain'', ''clear''])"
    by code_simp
  have ic: "weather_strings ''icon''
              (samples_on utc_date (forecast_items example_forecast) ''2023-11-14'')
            = Inr (map JStr [''01d'', ''10d'', ''01d''])"
    by code_simp
  have dt: "weather_strings ''description''
              (samples_on utc_date (forecast_items example_forecast) ''2023-11-16'')
            = Inr (map JStr [''clear'', ''rain''])"
    by code_simp
  have ms: "most_frequent_first ''clear'' [''clear'', ''rain'', ''clear'']"
    using most_frequent_description [OF example_result, of ?s] ds by auto
  have mi: "most_frequent_first ''01d'' [''01d'', ''10d'', ''01d'']"
    using most_frequent_description [OF example_result, of ?s] ic by auto
  have mt: "most_frequent_first ''clear'' [''clear'', ''rain'']"
    using most_frequent_description [OF example_result, of ?t] dt by auto
  have "get_forecast_data utc_date example_forecast 5 = Inr ?res \<and> ?s \<in> set ?res \<and> ?t \<in> set ?res \<and>
     weather_strings ''description'' (samples_on utc_date (forecast_items example_forecast) (date ?s))
       = Inr (map JStr [''clear'', ''rain'', ''clear'']) \<and>
     daily_summary.description ?s = JStr ''clear'' \<and>
     most_frequent_first ''clear'' [''clear'', ''rain'', ''clear''] \<and>
     weather_strings ''icon'' (samples_on utc_date (forecast_items example_forecast) (date ?s))
       = Inr (map JStr [''01d'', ''10d'', ''01d'']) \<and>
     daily_summary.icon ?s = JStr ''01d'' \<and>
     most_frequent_first ''01d'' [''01d'', ''10d'', ''01d''] \<and>
     weather_strings ''description'' (samples_on utc_date (forecast_items example_forecast) (date ?t))
       = Inr (map JStr [''clear'', ''rain'']) \<and>
     daily_summary.description ?t = JStr ''clear'' \<and>
     most_frequent_first ''clear'' [''clear'', ''rain'']"
    using example_result ds ic dt ms mi mt by simp
  then show ?thesis
    by - (rule exI [of _ ?res], rule exI [of _ ?s], rule exI [of _ ?t], assumption)
qed

text \<open>
  C5 fails on the code. Line 76 tests \<^verbatim>\<open>x.get("main")\<close> and then subscripts
  \<^verbatim>\<open>x["main"]["temp"]\<close>: a date whose only sample has a \<^verbatim>\<open>main\<close> object without
  \<^verbatim>\<open>temp\<close> has no temperature reading, yet the call raises \<^verbatim>\<open>KeyError\<close> instead of
  dropping the date; the same date with no \<^verbatim>\<open>main\<close> object at all is dropped, and the
  call returns the empty list.
\<close>

theorem missing_temp_raises:
  "get_forecast_data utc_date
     (JObj [(''list'', JArr [JObj [(''dt'', JNum 1699920000),
                                   (''main'', JObj [(''humidity'', JNum 80)])]])]) 5
     = Inl KeyError \<and>
   get_forecast_data utc_date
     (JObj [(''list'', JArr [JObj [(''dt'', JNum 1699920000)]])]) 5
     = Inr []"
  by code_simp



end
